theory Spec2Isabelle
  imports Main "HOL-Library.Word"
begin

section \<open>Strings of the source language\<close>

text \<open>
  A TypeScript string is a sequence of UTF-16 code units; \<open>length\<close>, \<open>trim\<close> and a
  regular expression without the \<open>u\<close> flag all work on code units. Literals of the
  source are ASCII and are written through \<open>str\<close>.
\<close>

type_synonym code_unit = "16 word"
type_synonym jsstring = "code_unit list"

definition str :: "string \<Rightarrow> jsstring" where
  "str cs = map (\<lambda>c. of_nat (of_char c)) cs"

text \<open>
  The white space of the language: the code points that \<open>String.prototype.trim\<close>
  strips and that the class escape \<open>\s\<close> matches (WhiteSpace and LineTerminator of
  ECMAScript): TAB, LF, VT, FF, CR, SPACE, NBSP, U+1680, U+2000 to U+200A, U+2028,
  U+2029, U+202F, U+205F, U+3000 and U+FEFF. All of them are single code units.
\<close>

definition isWhiteSpace :: "code_unit \<Rightarrow> bool" where
  "isWhiteSpace c =
     (c = 0x0009 \<or> c = 0x000A \<or> c = 0x000B \<or> c = 0x000C \<or> c = 0x000D \<or> c = 0x0020 \<or>
      c = 0x00A0 \<or> c = 0x1680 \<or> (0x2000 \<le> c \<and> c \<le> 0x200A) \<or> c = 0x2028 \<or>
      c = 0x2029 \<or> c = 0x202F \<or> c = 0x205F \<or> c = 0x3000 \<or> c = 0xFEFF)"

text \<open>\<open>value.trim()\<close>: the string without its leading and trailing white space.\<close>

definition trim :: "jsstring \<Rightarrow> jsstring" where
  "trim s = rev (dropWhile isWhiteSpace (rev (dropWhile isWhiteSpace s)))"

section \<open>Regular expressions, as far as \<open>validators.ts\<close> uses them\<close>

text \<open>
  The pattern of \<open>isValidEmail\<close> is a sequence of terms: the assertions \<open>^\<close> and
  \<open>$\<close>, a single atom, and an atom under the greedy quantifier \<open>+\<close>. An atom is a
  literal character (\<open>@\<close>, or the escaped \<open>\.\<close>) or a negated class \<open>[^...]\<close>
  whose members are the escape \<open>\s\<close> and literal characters.
\<close>

datatype class_item = ClassEscape_s | ClassChar code_unit

datatype atom = PatternChar code_unit | NegatedClass "class_item list"

datatype rterm = Bol | Eol | One atom | OneOrMore atom

type_synonym pattern = "rterm list"

fun class_item_has :: "class_item \<Rightarrow> code_unit \<Rightarrow> bool" where
  "class_item_has ClassEscape_s c = isWhiteSpace c"
| "class_item_has (ClassChar a) c = (c = a)"

fun accepts :: "atom \<Rightarrow> code_unit \<Rightarrow> bool" where
  "accepts (PatternChar a) c = (c = a)"
| "accepts (NegatedClass items) c = (\<not> list_ex (\<lambda>it. class_item_has it c) items)"

text \<open>
  The backtracking matcher: \<open>matcher ts i s\<close> tells whether the terms \<open>ts\<close> match a
  prefix of \<open>s\<close>, the rest of the input from index \<open>i\<close> on. Without the \<open>m\<close> flag,
  \<open>^\<close> holds at index 0 only and \<open>$\<close> at the end of the input only. The quantifier
  \<open>+\<close> is greedy: it first tries to take one more character and then falls back to
  the rest of the pattern.
\<close>

fun matcher :: "pattern \<Rightarrow> nat \<Rightarrow> jsstring \<Rightarrow> bool" where
  "matcher [] i s = True"
| "matcher (Bol # ts) i s = (i = 0 \<and> matcher ts i s)"
| "matcher (Eol # ts) i s = (s = [] \<and> matcher ts i s)"
| "matcher (One a # ts) i [] = False"
| "matcher (One a # ts) i (c # cs) = (accepts a c \<and> matcher ts (Suc i) cs)"
| "matcher (OneOrMore a # ts) i [] = False"
| "matcher (OneOrMore a # ts) i (c # cs) =
     (accepts a c \<and> (matcher (OneOrMore a # ts) (Suc i) cs \<or> matcher ts (Suc i) cs))"

text \<open>
  \<open>regex.test(value)\<close> for a pattern without the \<open>g\<close> and \<open>y\<close> flags: the matcher is
  tried at every start index from 0 to the length of the input.
\<close>

definition test :: "pattern \<Rightarrow> jsstring \<Rightarrow> bool" where
  "test p s = list_ex (\<lambda>i. matcher p i (drop i s)) [0 ..< Suc (length s)]"

section \<open>\<open>src/lib/validators.ts\<close>\<close>

definition isNonEmpty :: "jsstring \<Rightarrow> bool" where
  "isNonEmpty v = (length (trim v) > 0)"

text \<open>The class \<open>[^\s@]\<close> and the pattern \<open>^[^\s@]+@[^\s@]+\.[^\s@]+$\<close>.\<close>

definition not_space_at :: atom where
  "not_space_at = NegatedClass [ClassEscape_s, ClassChar 0x40]"

definition email_pattern :: pattern where
  "email_pattern =
     [Bol, OneOrMore not_space_at, One (PatternChar 0x40), OneOrMore not_space_at,
      One (PatternChar 0x2E), OneOrMore not_space_at, Eol]"

definition isValidEmail :: "jsstring \<Rightarrow> bool" where
  "isValidEmail v = test email_pattern v"

subsection \<open>Specification vocabulary for the validators\<close>

text \<open>
  What "the string after trimming leading and trailing white space" means, stated
  without the algorithm of \<open>trim\<close>: \<open>t\<close> is what is left of \<open>s\<close> when a run of white
  space is taken off each end and \<open>t\<close> neither starts nor ends with white space.
\<close>

definition is_trimmed_form :: "jsstring \<Rightarrow> jsstring \<Rightarrow> bool" where
  "is_trimmed_form s t =
     (\<exists>l r. s = l @ t @ r \<and> list_all isWhiteSpace l \<and> list_all isWhiteSpace r \<and>
        (t = [] \<or> (\<not> isWhiteSpace (hd t) \<and> \<not> isWhiteSpace (last t))))"

abbreviation at_sign :: code_unit where "at_sign \<equiv> 0x40"
abbreviation full_stop :: code_unit where "full_stop \<equiv> 0x2E"

text \<open>The shape \<open>local@domain.tld\<close>, and a character that is neither white space nor \<open>@\<close>.\<close>

definition email_shape :: "jsstring \<Rightarrow> jsstring \<Rightarrow> jsstring \<Rightarrow> jsstring" where
  "email_shape local domain tld = local @ at_sign # domain @ full_stop # tld"

definition plain :: "code_unit \<Rightarrow> bool" where
  "plain c = (\<not> isWhiteSpace c \<and> c \<noteq> at_sign)"

section \<open>\<open>src/lib/api.ts\<close>\<close>

text \<open>
  What a promise rejects with: a built-in error (its name and its message), or the
  \<open>ApiError\<close> of this module, which carries \<open>status\<close> and \<open>message\<close>.
\<close>

datatype exn = Exn jsstring jsstring | ApiError nat jsstring

text \<open>
  The values that \<open>response.json()\<close> can produce. A number is an IEEE-754 double,
  given by its 64 bits; an object is the list of its properties.
\<close>

datatype json_value =
    JNull | JBool bool | JNumber "64 word" | JString jsstring
  | JArray "json_value list" | JObject "(jsstring \<times> json_value) list"

text \<open>
  A property of an options object is absent, present holding \<open>undefined\<close>, or present
  with a value; object spread copies every present property.
\<close>

datatype 'a property = Absent | Undefined | Value 'a

text \<open>
  \<open>RequestInit\<close>, with the options \<open>method\<close>, \<open>headers\<close> and \<open>body\<close>. Headers
  are a plain object from header names to values. The field \<open>method\<close> is written
  \<open>method'\<close> here, as are \<open>text\<close> of a response and \<open>id\<close> of a user below: the
  plain names are taken.
\<close>

type_synonym header_map = "jsstring \<rightharpoonup> jsstring"

record RequestInit =
  method' :: "jsstring property"
  headers :: "header_map property"
  body :: "jsstring property"

text \<open>
  What the client reads of a \<open>Response\<close>: \<open>ok\<close>, \<open>status\<close>, and the outcomes of
  awaiting \<open>response.text()\<close> and \<open>response.json()\<close> (\<open>Inl\<close> when the promise
  rejects).
\<close>

record Response =
  ok :: bool
  status :: nat
  text' :: "exn + jsstring"
  json :: "exn + json_value"

text \<open>
  A response as the platform builds it from a status code and a body \<open>raw\<close>: \<open>ok\<close>
  holds exactly for the statuses 200 to 299, \<open>text()\<close> yields the body, and \<open>json()\<close>
  is the outcome of parsing the body. The parser of the platform, \<open>JSON.parse\<close>, is
  the parameter \<open>JSON_parse\<close>; \<open>Inl\<close> is the error it throws.
\<close>

definition http_response ::
    "(jsstring \<Rightarrow> exn + json_value) \<Rightarrow> nat \<Rightarrow> jsstring \<Rightarrow> Response" where
  "http_response JSON_parse code raw =
     \<lparr>ok = (200 \<le> code \<and> code \<le> 299), status = code, text' = Inr raw,
      json = JSON_parse raw\<rparr>"

type_synonym transport = "jsstring \<Rightarrow> RequestInit \<Rightarrow> exn + Response"

text \<open>A mocked transport: it answers every request with the response \<open>r\<close>.\<close>

definition respond_with :: "Response \<Rightarrow> transport" where
  "respond_with r url init = Inr r"

definition default_headers :: header_map where
  "default_headers = [str ''Content-Type'' \<mapsto> str ''application/json'']"

text \<open>\<open>...options?.headers\<close>: the properties that the spread contributes.\<close>

definition spread_headers :: "RequestInit option \<Rightarrow> header_map" where
  "spread_headers options =
     (case options of
        None \<Rightarrow> Map.empty
      | Some opts \<Rightarrow> (case headers opts of Value h \<Rightarrow> h | _ \<Rightarrow> Map.empty))"

text \<open>
  The second argument of the \<open>fetch\<close> call,
  \<open>{ headers: { "Content-Type": "application/json", ...options?.headers }, ...options }\<close>:
  the property \<open>headers\<close> is written first, then every property present in
  \<open>options\<close> is copied over the object.
\<close>

definition request_init :: "RequestInit option \<Rightarrow> RequestInit" where
  "request_init options =
     (let merged = default_headers ++ spread_headers options in
      case options of
        None \<Rightarrow> \<lparr>method' = Absent, headers = Value merged, body = Absent\<rparr>
      | Some opts \<Rightarrow>
          \<lparr>method' = method' opts,
           headers = (case headers opts of Absent \<Rightarrow> Value merged | present \<Rightarrow> present),
           body = body opts\<rparr>)"

text \<open>
  \<open>apiClient\<close>. The transport \<open>fetch\<close> and the constant \<open>API_BASE_URL\<close> of
  \<open>./constants\<close> are parameters. \<open>Inl\<close> is a rejected promise.
\<close>

definition apiClient ::
    "transport \<Rightarrow> jsstring \<Rightarrow> jsstring \<Rightarrow> RequestInit option \<Rightarrow> exn + json_value" where
  "apiClient fetch API_BASE_URL endpoint options =
     (case fetch (API_BASE_URL @ endpoint) (request_init options) of
        Inl e \<Rightarrow> Inl e
      | Inr response \<Rightarrow>
          if \<not> ok response then
            (case text' response of
               Inl e \<Rightarrow> Inl e
             | Inr message \<Rightarrow> Inl (ApiError (status response) message))
          else json response)"

section \<open>\<open>src/contexts/AuthContext.tsx\<close>\<close>

record User =
  id' :: jsstring
  email :: jsstring
  name :: jsstring

text \<open>The cell of \<open>useState<User | null>(null)\<close>; \<open>None\<close> is \<open>null\<close>.\<close>

type_synonym auth_state = "User option"

abbreviation Anonymous :: auth_state where "Anonymous \<equiv> None"
abbreviation Authenticated :: "User \<Rightarrow> auth_state" where "Authenticated u \<equiv> Some u"

definition initial_state :: auth_state where
  "initial_state = None"

text \<open>The setter of the cell, called with a value: the cell holds that value afterwards.\<close>

definition setUser :: "User option \<Rightarrow> auth_state \<Rightarrow> auth_state" where
  "setUser v s = v"

text \<open>
  \<open>AuthContextValue\<close>: the current user and the two closures, each given by its
  effect on the cell.
\<close>

record AuthContextValue =
  user :: "User option"
  login :: "User \<Rightarrow> auth_state \<Rightarrow> auth_state"
  logout :: "auth_state \<Rightarrow> auth_state"

text \<open>The \<open>value\<close> that \<open>AuthProvider\<close> hands to its subtree when its cell holds \<open>s\<close>.\<close>

definition AuthProvider_value :: "auth_state \<Rightarrow> AuthContextValue" where
  "AuthProvider_value s =
     \<lparr>user = s, login = (\<lambda>u. setUser (Some u)), logout = setUser None\<rparr>"

text \<open>
  The ancestors of a consumer in the component tree, nearest first. \<open>AuthContext\<close> is
  not exported, so its only providers are \<open>AuthProvider\<close> components.
\<close>

datatype component = AuthProvider auth_state | Other

text \<open>
  \<open>useContext(AuthContext)\<close>: the value of the nearest provider, and the default
  \<open>null\<close> of \<open>createContext\<close> when there is none.
\<close>

fun useContext :: "component list \<Rightarrow> AuthContextValue option" where
  "useContext [] = None"
| "useContext (AuthProvider s # outer) = Some (AuthProvider_value s)"
| "useContext (Other # outer) = useContext outer"

definition useAuth :: "component list \<Rightarrow> exn + AuthContextValue" where
  "useAuth ancestors =
     (case useContext ancestors of
        None \<Rightarrow> Inl (Exn (str ''Error'') (str ''useAuth must be used within an AuthProvider''))
      | Some context \<Rightarrow> Inr context)"

section \<open>Properties of the validators\<close>

subsection \<open>Trimming\<close>

lemma dropWhile_all_iff: "(\<forall>x\<in>set (dropWhile P xs). P x) \<longleftrightarrow> (\<forall>x\<in>set xs. P x)"
  by (induction xs) auto

lemma trim_Nil_iff: "trim s = [] \<longleftrightarrow> (\<forall>c\<in>set s. isWhiteSpace c)"
  by (simp add: trim_def dropWhile_all_iff)

lemma isNonEmpty_iff: "isNonEmpty s \<longleftrightarrow> (\<exists>c\<in>set s. \<not> isWhiteSpace c)"
  using trim_Nil_iff [of s] by (auto simp: isNonEmpty_def)

lemma trim_decomp:
  "\<exists>l r. s = l @ trim s @ r \<and> list_all isWhiteSpace l \<and> list_all isWhiteSpace r"
proof -
  let ?P = isWhiteSpace
  let ?m = "dropWhile ?P s"
  have 1: "s = takeWhile ?P s @ ?m" by simp
  have "?m = rev (rev ?m)" by simp
  also have "\<dots> = rev (takeWhile ?P (rev ?m) @ dropWhile ?P (rev ?m))" by simp
  also have "\<dots> = trim s @ rev (takeWhile ?P (rev ?m))" by (simp only: rev_append trim_def)
  finally have 3: "?m = trim s @ rev (takeWhile ?P (rev ?m))" .
  have 4: "s = takeWhile ?P s @ trim s @ rev (takeWhile ?P (rev ?m))"
    using 1 3 by metis
  have 5: "list_all ?P (takeWhile ?P s)" by (simp add: list_all_iff) (meson set_takeWhileD)
  have 6: "list_all ?P (rev (takeWhile ?P (rev ?m)))" by (simp add: list_all_iff) (meson set_takeWhileD)
  show ?thesis using 4 5 6 by blast
qed

lemma trim_ends:
  assumes "trim s \<noteq> []"
  shows "\<not> isWhiteSpace (hd (trim s)) \<and> \<not> isWhiteSpace (last (trim s))"
proof -
  let ?m = "dropWhile isWhiteSpace s"
  let ?k = "dropWhile isWhiteSpace (rev ?m)"
  from assms have k: "?k \<noteq> []" by (simp add: trim_def)
  have m: "?m \<noteq> []"
  proof
    assume "?m = []"
    then have "?k = []" by (simp only: rev.simps dropWhile.simps)
    with k show False by simp
  qed
  have "last (trim s) = hd ?k" using k by (simp add: trim_def last_rev)
  then have e: "\<not> isWhiteSpace (last (trim s))" using k hd_dropWhile [of isWhiteSpace "rev ?m"] by simp
  from k obtain x where x: "x \<in> set (rev ?m)" "\<not> isWhiteSpace x" by auto
  have "hd (trim s) = last ?k" using k by (simp add: trim_def hd_rev)
  also have "\<dots> = last (rev ?m)" using x by (rule dropWhile_last)
  also have "\<dots> = hd ?m" using m by (simp add: last_rev)
  finally have "\<not> isWhiteSpace (hd (trim s))" using m hd_dropWhile [of isWhiteSpace s] by simp
  with e show ?thesis by simp
qed

lemma trim_is_trimmed_form: "is_trimmed_form s (trim s)"
  using trim_decomp [of s] trim_ends [of s] unfolding is_trimmed_form_def by blast

lemma trimmed_form_unique:
  assumes "is_trimmed_form s t" shows "t = trim s"
proof -
  from assms obtain l r where s: "s = l @ t @ r" and l: "list_all isWhiteSpace l"
    and r: "list_all isWhiteSpace r"
    and t: "t = [] \<or> (\<not> isWhiteSpace (hd t) \<and> \<not> isWhiteSpace (last t))"
    unfolding is_trimmed_form_def by blast
  show ?thesis
  proof (cases "t = []")
    case True
    then have "\<forall>c\<in>set s. isWhiteSpace c" using s l r by (auto simp: list_all_iff)
    then have "trim s = []" by (simp add: trim_Nil_iff)
    with True show ?thesis by simp
  next
    case False
    with t have h: "\<not> isWhiteSpace (hd t)" and e: "\<not> isWhiteSpace (last t)" by auto
    have "dropWhile isWhiteSpace s = dropWhile isWhiteSpace (t @ r)"
      using l by (simp add: s list_all_iff)
    also have "\<dots> = t @ r" using False h by (cases t) auto
    finally have a: "dropWhile isWhiteSpace s = t @ r" .
    have r': "\<And>x. x \<in> set (rev r) \<Longrightarrow> isWhiteSpace x"
      using r by (simp add: list_all_iff)
    have "dropWhile isWhiteSpace (rev (t @ r)) = dropWhile isWhiteSpace (rev t)"
      unfolding rev_append by (rule dropWhile_append2) (rule r')
    also have "\<dots> = rev t" using False e by (cases t rule: rev_cases) auto
    finally show ?thesis by (simp add: trim_def a)
  qed
qed

subsection \<open>The matcher on the email pattern\<close>

lemma matcher_One:
  "matcher (One a # ts) i s \<longleftrightarrow> (\<exists>c v. s = c # v \<and> accepts a c \<and> matcher ts (Suc i) v)"
  by (cases s) auto

lemma matcher_OneOrMore:
  "matcher (OneOrMore a # ts) i s \<longleftrightarrow>
     (\<exists>u v. s = u @ v \<and> u \<noteq> [] \<and> list_all (accepts a) u \<and> matcher ts (i + length u) v)"
proof (induction s arbitrary: i)
  case Nil
  then show ?case by simp
next
  case (Cons c cs)
  show ?case
  proof
    assume "matcher (OneOrMore a # ts) i (c # cs)"
    then have c: "accepts a c"
      and alt: "matcher (OneOrMore a # ts) (Suc i) cs \<or> matcher ts (Suc i) cs"
      by auto
    from alt show "\<exists>u v. c # cs = u @ v \<and> u \<noteq> [] \<and> list_all (accepts a) u \<and> matcher ts (i + length u) v"
    proof
      assume "matcher (OneOrMore a # ts) (Suc i) cs"
      then obtain u v where "cs = u @ v" "u \<noteq> []" "list_all (accepts a) u"
        "matcher ts (Suc i + length u) v"
        using Cons.IH by blast
      then have "c # cs = (c # u) @ v \<and> c # u \<noteq> [] \<and> list_all (accepts a) (c # u) \<and>
        matcher ts (i + length (c # u)) v"
        using c by simp
      then show ?thesis by blast
    next
      assume "matcher ts (Suc i) cs"
      then have "c # cs = [c] @ cs \<and> [c] \<noteq> [] \<and> list_all (accepts a) [c] \<and>
        matcher ts (i + length [c]) cs"
        using c by simp
      then show ?thesis by blast
    qed
  next
    assume "\<exists>u v. c # cs = u @ v \<and> u \<noteq> [] \<and> list_all (accepts a) u \<and> matcher ts (i + length u) v"
    then obtain u v where s: "c # cs = u @ v" and u: "u \<noteq> []"
      and a: "list_all (accepts a) u" and m: "matcher ts (i + length u) v"
      by blast
    from u obtain u' where u': "u = c # u'" using s by (cases u) auto
    with s have cs: "cs = u' @ v" by simp
    from a u' have c: "accepts a c" and a': "list_all (accepts a) u'" by auto
    show "matcher (OneOrMore a # ts) i (c # cs)"
    proof (cases "u' = []")
      case True
      with m u' cs c show ?thesis by simp
    next
      case False
      with cs a' m u' have "matcher (OneOrMore a # ts) (Suc i) cs"
        using Cons.IH [of "Suc i"] by auto
      with c show ?thesis by simp
    qed
  qed
qed

lemma matcher_Bol_pos: "0 < i \<Longrightarrow> \<not> matcher (Bol # ts) i s"
  by simp

lemma test_Bol: "test (Bol # ts) s \<longleftrightarrow> matcher ts 0 s"
proof -
  have "test (Bol # ts) s \<longleftrightarrow> (\<exists>i\<in>set [0 ..< Suc (length s)]. matcher (Bol # ts) i (drop i s))"
    by (simp only: test_def list_ex_iff)
  also have "\<dots> \<longleftrightarrow> matcher (Bol # ts) 0 (drop 0 s)"
    by auto
  finally show ?thesis by simp
qed

lemma accepts_not_space_at: "accepts not_space_at c = plain c"
  by (simp add: not_space_at_def plain_def)

lemma matcher_plus_plain:
  "matcher (OneOrMore not_space_at # ts) i s \<longleftrightarrow>
     (\<exists>u v. s = u @ v \<and> u \<noteq> [] \<and> list_all plain u \<and> matcher ts (i + length u) v)"
  by (simp add: matcher_OneOrMore list_all_iff accepts_not_space_at)

lemma matcher_email_tail:
  "matcher (tl email_pattern) i s \<longleftrightarrow>
     (\<exists>l d t. s = l @ at_sign # d @ full_stop # t \<and> l \<noteq> [] \<and> d \<noteq> [] \<and> t \<noteq> [] \<and>
        list_all plain l \<and> list_all plain d \<and> list_all plain t)"
  (is "?L \<longleftrightarrow> ?R")
proof
  let ?K = "OneOrMore not_space_at"
  let ?A = "One (PatternChar at_sign)"
  let ?D = "One (PatternChar full_stop)"
  assume ?L
  then have m0: "matcher [?K, ?A, ?K, ?D, ?K, Eol] i s"
    by (simp add: email_pattern_def)
  from m0 [unfolded matcher_plus_plain] obtain l v1 where 1: "s = l @ v1" "l \<noteq> []" "list_all plain l"
     and m1: "matcher [?A, ?K, ?D, ?K, Eol] (i + length l) v1"
    by blast
  from m1 [unfolded matcher_One] obtain v2 where 2: "v1 = at_sign # v2"
     and m2: "matcher [?K, ?D, ?K, Eol] (Suc (i + length l)) v2"
    by auto
  from m2 [unfolded matcher_plus_plain] obtain d v3 where 3: "v2 = d @ v3" "d \<noteq> []" "list_all plain d"
     and m3: "matcher [?D, ?K, Eol] (Suc (i + length l) + length d) v3"
    by blast
  from m3 [unfolded matcher_One] obtain v4 where 4: "v3 = full_stop # v4"
     and m4: "matcher [?K, Eol] (Suc (Suc (i + length l) + length d)) v4"
    by auto
  from m4 [unfolded matcher_plus_plain] obtain t v5 where 5: "v4 = t @ v5" "t \<noteq> []" "list_all plain t"
     and m5: "matcher [Eol] (Suc (Suc (i + length l) + length d) + length t) v5"
    by blast
  from m5 have "v5 = []" by simp
  with 1 2 3 4 5 show ?R by auto
next
  let ?K = "OneOrMore not_space_at"
  let ?A = "One (PatternChar at_sign)"
  let ?D = "One (PatternChar full_stop)"
  assume ?R
  then obtain l d t where s: "s = l @ at_sign # d @ full_stop # t"
    and ne: "l \<noteq> []" "d \<noteq> []" "t \<noteq> []"
    and pl: "list_all plain l" "list_all plain d" "list_all plain t"
    by blast
  have "matcher [Eol] j []" for j by simp
  then have 5: "matcher [?K, Eol] j t" for j
    unfolding matcher_plus_plain using ne pl by (metis append_Nil2)
  then have 4: "matcher [?D, ?K, Eol] j (full_stop # t)" for j
    by simp
  then have 3: "matcher [?K, ?D, ?K, Eol] j (d @ full_stop # t)" for j
    unfolding matcher_plus_plain [of "[?D, ?K, Eol]"] using ne pl by blast
  then have 2: "matcher [?A, ?K, ?D, ?K, Eol] j (at_sign # d @ full_stop # t)" for j
    by simp
  then have "matcher [?K, ?A, ?K, ?D, ?K, Eol] i s"
    unfolding matcher_plus_plain [of "[?A, ?K, ?D, ?K, Eol]"] s using ne pl by blast
  then show ?L by (simp add: email_pattern_def)
qed

lemma isValidEmail_iff:
  "isValidEmail s \<longleftrightarrow>
     (\<exists>l d t. s = l @ at_sign # d @ full_stop # t \<and> l \<noteq> [] \<and> d \<noteq> [] \<and> t \<noteq> [] \<and>
        list_all plain l \<and> list_all plain d \<and> list_all plain t)"
proof -
  have "isValidEmail s \<longleftrightarrow> matcher (tl email_pattern) 0 s"
    by (simp add: isValidEmail_def email_pattern_def test_Bol)
  then show ?thesis by (simp only: matcher_email_tail)
qed

lemma list_all_plain_iff:
  "list_all plain u \<longleftrightarrow> \<not> list_ex isWhiteSpace u \<and> at_sign \<notin> set u"
  by (auto simp: plain_def list_all_iff list_ex_iff)

lemma isValidEmail_shape_iff:
  "isValidEmail s \<longleftrightarrow>
     (\<exists>l d t. s = email_shape l d t \<and> l \<noteq> [] \<and> d \<noteq> [] \<and> t \<noteq> [] \<and>
        list_all plain l \<and> list_all plain d \<and> list_all plain t)"
  by (simp only: isValidEmail_iff email_shape_def)

lemma isValidEmail_one_at:
  assumes "isValidEmail s" and "s = p @ at_sign # q"
  shows "full_stop \<in> set q"
proof -
  from assms(1) obtain l d t where s: "s = l @ at_sign # d @ full_stop # t"
    and pl: "list_all plain l" "list_all plain d" "list_all plain t"
    unfolding isValidEmail_iff by blast
  have l: "at_sign \<notin> set l" and dt: "at_sign \<notin> set (d @ full_stop # t)"
    using pl by (auto simp: list_all_plain_iff)
  from s assms(2) have "l @ at_sign # (d @ full_stop # t) = p @ at_sign # q" by simp
  then have "q = d @ full_stop # t"
    using append_Cons_eq_iff [OF l dt, of p q] by simp
  then show ?thesis by simp
qed

section \<open>The claims about the validators\<close>

text \<open>
  C7. For every string \<open>s\<close>, \<open>isNonEmpty s\<close> is true if and only if the length of \<open>s\<close>
  after trimming leading and trailing white space is greater than 0. The trimmed
  form is taken as the claim words it (\<open>is_trimmed_form\<close>): it exists for every
  string, and for each trimmed form of \<open>s\<close> the result of \<open>isNonEmpty\<close> is whether that
  form has positive length.
\<close>

theorem isNonEmpty_trimmed_length:
  "(\<exists>t. is_trimmed_form s t) \<and>
   (\<forall>t. is_trimmed_form s t \<longrightarrow> (isNonEmpty s \<longleftrightarrow> 0 < length t))"
proof
  show "\<exists>t. is_trimmed_form s t" using trim_is_trimmed_form by blast
next
  show "\<forall>t. is_trimmed_form s t \<longrightarrow> (isNonEmpty s \<longleftrightarrow> 0 < length t)"
  proof (intro allI impI)
    fix t assume "is_trimmed_form s t"
    then have "t = trim s" by (rule trimmed_form_unique)
    then show "isNonEmpty s \<longleftrightarrow> 0 < length t" by (simp add: isNonEmpty_def)
  qed
qed

theorem isNonEmpty_trimmed_length_witness:
  "is_trimmed_form [0x20, 0x61, 0x20] [0x61] \<and> isNonEmpty [0x20, 0x61, 0x20] \<and>
   is_trimmed_form [0x20, 0x09] [] \<and> \<not> isNonEmpty [0x20, 0x09]"
proof -
  have "[0x20, 0x61, 0x20] = [0x20] @ [0x61] @ [0x20::code_unit] \<and>
      list_all isWhiteSpace [0x20] \<and> list_all isWhiteSpace [0x20] \<and>
      ([0x61::code_unit] = [] \<or> (\<not> isWhiteSpace (hd [0x61]) \<and> \<not> isWhiteSpace (last [0x61])))"
    by (simp add: isWhiteSpace_def)
  then have a: "is_trimmed_form [0x20, 0x61, 0x20] [0x61]"
    unfolding is_trimmed_form_def by blast
  have "[0x20, 0x09] = [0x20, 0x09] @ [] @ ([]::jsstring) \<and>
      list_all isWhiteSpace [0x20, 0x09] \<and> list_all isWhiteSpace [] \<and>
      (([]::jsstring) = [] \<or> (\<not> isWhiteSpace (hd []) \<and> \<not> isWhiteSpace (last [])))"
    by (simp add: isWhiteSpace_def)
  then have b: "is_trimmed_form [0x20, 0x09] []"
    unfolding is_trimmed_form_def by blast
  from a isNonEmpty_trimmed_length [of "[0x20, 0x61, 0x20]"]
  have c: "isNonEmpty [0x20, 0x61, 0x20]" by auto
  from b isNonEmpty_trimmed_length [of "[0x20, 0x09]"]
  have d: "\<not> isNonEmpty [0x20, 0x09]" by auto
  from a b c d show ?thesis by simp
qed

text \<open>
  C8, as stated: every string that contains no white space makes \<open>isNonEmpty\<close> true.
  The empty string contains no white space, and \<open>isNonEmpty\<close> is false on it.
\<close>

theorem isNonEmpty_no_whitespace_counterexample:
  "\<not> list_ex isWhiteSpace (str '''') \<and> \<not> isNonEmpty (str '''')"
  by (simp add: str_def isNonEmpty_def trim_def)

text \<open>
  C8, amended: every non-empty string that contains no white space makes \<open>isNonEmpty\<close>
  true; every string that is empty or consists of white space only makes it false.
\<close>

theorem isNonEmpty_whitespace:
  "(s \<noteq> [] \<and> \<not> list_ex isWhiteSpace s \<longrightarrow> isNonEmpty s) \<and>
   (s = [] \<or> list_all isWhiteSpace s \<longrightarrow> \<not> isNonEmpty s)"
proof (intro conjI impI)
  assume "s \<noteq> [] \<and> \<not> list_ex isWhiteSpace s"
  then have "hd s \<in> set s" and "\<not> isWhiteSpace (hd s)"
    by (auto simp: list_ex_iff)
  then show "isNonEmpty s" unfolding isNonEmpty_iff by blast
next
  assume "s = [] \<or> list_all isWhiteSpace s"
  then have "\<forall>c\<in>set s. isWhiteSpace c" by (auto simp: list_all_iff)
  then show "\<not> isNonEmpty s" by (simp add: isNonEmpty_iff)
qed

theorem isNonEmpty_whitespace_witness:
  "(str ''abc'' \<noteq> [] \<and> \<not> list_ex isWhiteSpace (str ''abc'') \<and> isNonEmpty (str ''abc'')) \<and>
   (list_all isWhiteSpace [0x20, 0x09, 0xA0] \<and> \<not> isNonEmpty [0x20, 0x09, 0xA0])"
proof -
  have a: "str ''abc'' \<noteq> [] \<and> \<not> list_ex isWhiteSpace (str ''abc'')"
    by (simp add: str_def isWhiteSpace_def)
  have b: "list_all isWhiteSpace [0x20, 0x09, 0xA0]"
    by (simp add: isWhiteSpace_def)
  from a isNonEmpty_whitespace [of "str ''abc''"] have c: "isNonEmpty (str ''abc'')"
    by blast
  from b isNonEmpty_whitespace [of "[0x20, 0x09, 0xA0]"] have d: "\<not> isNonEmpty [0x20, 0x09, 0xA0]"
    by blast
  from a b c d show ?thesis by blast
qed

text \<open>
  C9, as stated: every string made of a non-empty local part, an \<open>@\<close>, a non-empty
  domain part, a dot and a non-empty tld part, with no white space in it, is accepted.
  The string \<open>a@b@c.d\<close> has that shape (local part \<open>a\<close>, domain part \<open>b@c\<close>, tld part
  \<open>d\<close>) and no white space, and \<open>isValidEmail\<close> rejects it.
\<close>

theorem isValidEmail_shape_counterexample:
  "str ''a@b@c.d'' = email_shape (str ''a'') (str ''b@c'') (str ''d'') \<and>
   str ''a'' \<noteq> [] \<and> str ''b@c'' \<noteq> [] \<and> str ''d'' \<noteq> [] \<and>
   \<not> list_ex isWhiteSpace (str ''a@b@c.d'') \<and>
   \<not> isValidEmail (str ''a@b@c.d'')"
  by (simp add: email_shape_def str_def isWhiteSpace_def isValidEmail_def test_def
      email_pattern_def not_space_at_def)

text \<open>
  C9, amended: every string of the shape \<open>local@domain.tld\<close> whose three parts are
  non-empty and contain neither white space nor \<open>@\<close> is accepted; every string
  without an \<open>@\<close> is rejected, and so is every string in which some \<open>@\<close> has no dot
  after it.
\<close>

theorem isValidEmail_shape:
  "(l \<noteq> [] \<and> d \<noteq> [] \<and> t \<noteq> [] \<and> \<not> list_ex isWhiteSpace (email_shape l d t) \<and>
      at_sign \<notin> set l \<and> at_sign \<notin> set d \<and> at_sign \<notin> set t
      \<longrightarrow> isValidEmail (email_shape l d t)) \<and>
   (at_sign \<notin> set s \<longrightarrow> \<not> isValidEmail s) \<and>
   (s = p @ at_sign # q \<and> full_stop \<notin> set q \<longrightarrow> \<not> isValidEmail s)"
proof (intro conjI impI)
  assume h: "l \<noteq> [] \<and> d \<noteq> [] \<and> t \<noteq> [] \<and> \<not> list_ex isWhiteSpace (email_shape l d t) \<and>
      at_sign \<notin> set l \<and> at_sign \<notin> set d \<and> at_sign \<notin> set t"
  then have "list_all plain l" "list_all plain d" "list_all plain t"
    by (auto simp: list_all_plain_iff email_shape_def list_ex_iff)
  with h show "isValidEmail (email_shape l d t)"
    unfolding isValidEmail_shape_iff by blast
next
  assume "at_sign \<notin> set s"
  then show "\<not> isValidEmail s" by (auto simp: isValidEmail_iff)
next
  assume "s = p @ at_sign # q \<and> full_stop \<notin> set q"
  then show "\<not> isValidEmail s" using isValidEmail_one_at by blast
qed

theorem isValidEmail_shape_witness:
  "isValidEmail (email_shape (str ''john.doe'') (str ''mail.example'') (str ''com'')) \<and>
   \<not> isValidEmail (str ''john.example.com'') \<and>
   \<not> isValidEmail (str ''john.doe'' @ at_sign # str ''localhost'')"
proof -
  have a: "str ''john.doe'' \<noteq> [] \<and> str ''mail.example'' \<noteq> [] \<and> str ''com'' \<noteq> [] \<and>
      \<not> list_ex isWhiteSpace (email_shape (str ''john.doe'') (str ''mail.example'') (str ''com'')) \<and>
      at_sign \<notin> set (str ''john.doe'') \<and> at_sign \<notin> set (str ''mail.example'') \<and>
      at_sign \<notin> set (str ''com'')"
    by (simp add: email_shape_def str_def isWhiteSpace_def)
  have b: "at_sign \<notin> set (str ''john.example.com'')"
    by (simp add: str_def)
  have c: "full_stop \<notin> set (str ''localhost'')"
    by (simp add: str_def)
  from a isValidEmail_shape [of "str ''john.doe''" "str ''mail.example''" "str ''com''"]
  have 1: "isValidEmail (email_shape (str ''john.doe'') (str ''mail.example'') (str ''com''))"
    by blast
  from b isValidEmail_shape [of _ _ _ "str ''john.example.com''"]
  have 2: "\<not> isValidEmail (str ''john.example.com'')"
    by blast
  from c isValidEmail_shape [of _ _ _ "str ''john.doe'' @ at_sign # str ''localhost''"
      "str ''john.doe''" "str ''localhost''"]
  have 3: "\<not> isValidEmail (str ''john.doe'' @ at_sign # str ''localhost'')"
    by blast
  from 1 2 3 show ?thesis by blast
qed

text \<open>
  C10. Every string that \<open>isValidEmail\<close> accepts is accepted by \<open>isNonEmpty\<close>.
\<close>

theorem isValidEmail_isNonEmpty:
  assumes "isValidEmail s"
  shows "isNonEmpty s"
proof -
  from assms obtain l d t where s: "s = l @ at_sign # d @ full_stop # t"
    and l: "l \<noteq> []" "list_all plain l"
    unfolding isValidEmail_iff by blast
  from l have "hd l \<in> set l" and "\<not> isWhiteSpace (hd l)"
    by (auto simp: list_all_iff plain_def)
  with s have "\<exists>c\<in>set s. \<not> isWhiteSpace c" by auto
  then show ?thesis by (simp add: isNonEmpty_iff)
qed

theorem isValidEmail_isNonEmpty_witness:
  "isValidEmail (str ''a@b.com'') \<and> isNonEmpty (str ''a@b.com'')"
proof -
  have h: "isValidEmail (str ''a@b.com'')"
    by (simp add: str_def isWhiteSpace_def isValidEmail_def test_def
        email_pattern_def not_space_at_def)
  from h isValidEmail_isNonEmpty [OF h] show ?thesis by simp
qed

section \<open>The claims about the API client\<close>

lemma request_init_no_headers:
  "options = None \<or> (\<exists>opts. options = Some opts \<and> headers opts = Absent) \<Longrightarrow>
   headers (request_init options) = Value default_headers"
  by (auto simp: request_init_def spread_headers_def)

lemma request_init_own_headers:
  "headers opts \<noteq> Absent \<Longrightarrow> headers (request_init (Some opts)) = headers opts"
  by (cases "headers opts") (simp_all add: request_init_def)

text \<open>
  C1, as stated: every call that the transport answers with a response that is not ok
  rejects with an \<open>ApiError\<close> carrying the status and the body text. The response
  below is not ok (status 502) and reading its body fails; the call then rejects with
  the failure of \<open>response.text()\<close>, which is not an \<open>ApiError\<close> and carries no
  status.
\<close>

theorem apiClient_rejects_ApiError_counterexample:
  "\<not> ok \<lparr>ok = False, status = 502,
           text' = Inl (Exn (str ''TypeError'') (str ''network error'')),
           json = Inl (Exn (str ''TypeError'') (str ''network error''))\<rparr> \<and>
   apiClient
     (respond_with \<lparr>ok = False, status = 502,
           text' = Inl (Exn (str ''TypeError'') (str ''network error'')),
           json = Inl (Exn (str ''TypeError'') (str ''network error''))\<rparr>)
     (str ''http://localhost:3000/api'') (str ''/x'') None
   = Inl (Exn (str ''TypeError'') (str ''network error''))"
  by (simp add: apiClient_def respond_with_def)

text \<open>
  C1, amended: when the transport answers the request of \<open>apiClient\<close> with a response
  that is not ok, the call rejects; if the body of the response reads as the text
  \<open>raw\<close>, it rejects with the \<open>ApiError\<close> that carries the status of the response and
  \<open>raw\<close> as its message, and if reading the body fails, it rejects with that failure.
  In particular, a mocked transport answering HTTP 404 with body \<open>not found\<close> makes
  \<open>apiClient("/x")\<close> reject with status 404 and message \<open>not found\<close>.
\<close>

theorem apiClient_rejects_ApiError:
  "(fetch (API_BASE_URL @ endpoint) (request_init options) = Inr response \<and> \<not> ok response \<longrightarrow>
      (text' response = Inr raw \<longrightarrow>
         apiClient fetch API_BASE_URL endpoint options = Inl (ApiError (status response) raw)) \<and>
      (text' response = Inl e \<longrightarrow>
         apiClient fetch API_BASE_URL endpoint options = Inl e)) \<and>
   apiClient (respond_with (http_response JSON_parse 404 (str ''not found'')))
       API_BASE_URL (str ''/x'') None
     = Inl (ApiError 404 (str ''not found''))"
proof (intro conjI impI)
  assume "fetch (API_BASE_URL @ endpoint) (request_init options) = Inr response \<and> \<not> ok response"
    and "text' response = Inr raw"
  then show "apiClient fetch API_BASE_URL endpoint options = Inl (ApiError (status response) raw)"
    by (simp add: apiClient_def)
next
  assume "fetch (API_BASE_URL @ endpoint) (request_init options) = Inr response \<and> \<not> ok response"
    and "text' response = Inl e"
  then show "apiClient fetch API_BASE_URL endpoint options = Inl e"
    by (simp add: apiClient_def)
next
  show "apiClient (respond_with (http_response JSON_parse 404 (str ''not found'')))
       API_BASE_URL (str ''/x'') None
     = Inl (ApiError 404 (str ''not found''))"
    by (simp add: apiClient_def respond_with_def http_response_def)
qed

theorem apiClient_rejects_ApiError_witness:
  "apiClient
     (respond_with (http_response (\<lambda>raw. Inl (Exn (str ''SyntaxError'') raw)) 404 (str ''not found'')))
     (str ''http://localhost:3000/api'') (str ''/x'') None
   = Inl (ApiError 404 (str ''not found'')) \<and>
   apiClient
     (respond_with \<lparr>ok = False, status = 500,
           text' = Inl (Exn (str ''TypeError'') (str ''body stream'')), json = Inr JNull\<rparr>)
     (str ''http://localhost:3000/api'') (str ''/x'') None
   = Inl (Exn (str ''TypeError'') (str ''body stream''))"
proof -
  let ?base = "str ''http://localhost:3000/api''"
  let ?r = "http_response (\<lambda>raw. Inl (Exn (str ''SyntaxError'') raw)) 404 (str ''not found'')"
  let ?b = "\<lparr>ok = False, status = 500,
      text' = Inl (Exn (str ''TypeError'') (str ''body stream'')), json = Inr JNull\<rparr>"
  have r: "respond_with ?r (?base @ str ''/x'') (request_init None) = Inr ?r \<and> \<not> ok ?r"
    and rt: "text' ?r = Inr (str ''not found'')" and rs: "status ?r = 404"
    by (simp_all add: respond_with_def http_response_def)
  have b: "respond_with ?b (?base @ str ''/x'') (request_init None) = Inr ?b \<and> \<not> ok ?b"
    and bt: "text' ?b = Inl (Exn (str ''TypeError'') (str ''body stream''))"
    by (simp_all add: respond_with_def)
  from r rt apiClient_rejects_ApiError
    [of "respond_with ?r" ?base "str ''/x''" None ?r "str ''not found''"]
  have 1: "apiClient (respond_with ?r) ?base (str ''/x'') None = Inl (ApiError (status ?r) (str ''not found''))"
    by blast
  from b bt apiClient_rejects_ApiError
    [of "respond_with ?b" ?base "str ''/x''" None ?b _ "Exn (str ''TypeError'') (str ''body stream'')"]
  have 2: "apiClient (respond_with ?b) ?base (str ''/x'') None
      = Inl (Exn (str ''TypeError'') (str ''body stream''))"
    by blast
  from 1 2 rs show ?thesis by simp
qed

text \<open>
  C2. The claim: the request goes out with the caller's \<open>options.headers\<close> merged over
  the default \<open>Content-Type: application/json\<close>, also when the options carry a
  \<open>headers\<close> field. The code at \<open>apiClient("/x", {headers: {Authorization: "Bearer t"}})\<close>:
  the \<open>headers\<close> of the request are the caller's object alone, which has no
  \<open>Content-Type\<close>, whereas the merged map has it. The spread \<open>...options\<close> comes
  after the merged \<open>headers\<close> property and replaces it.
\<close>

theorem apiClient_headers_overwritten:
  "headers (request_init
      (Some \<lparr>method' = Absent, headers = Value [str ''Authorization'' \<mapsto> str ''Bearer t''],
             body = Absent\<rparr>))
     = Value [str ''Authorization'' \<mapsto> str ''Bearer t''] \<and>
   [str ''Authorization'' \<mapsto> str ''Bearer t''] (str ''Content-Type'') = None \<and>
   (default_headers ++ [str ''Authorization'' \<mapsto> str ''Bearer t'']) (str ''Content-Type'')
     = Some (str ''application/json'')"
  by (simp add: request_init_def default_headers_def str_def)

text \<open>
  C3, as stated: every call that the transport answers with a response that is ok
  resolves with the body parsed as JSON. The response below is ok (status 204) and its
  body is empty, which is not JSON: \<open>response.json()\<close> rejects with a \<open>SyntaxError\<close>,
  and so does the call.
\<close>

theorem apiClient_resolves_json_counterexample:
  "ok \<lparr>ok = True, status = 204, text' = Inr [],
        json = Inl (Exn (str ''SyntaxError'') (str ''Unexpected end of JSON input''))\<rparr> \<and>
   apiClient
     (respond_with \<lparr>ok = True, status = 204, text' = Inr [],
        json = Inl (Exn (str ''SyntaxError'') (str ''Unexpected end of JSON input''))\<rparr>)
     (str ''http://localhost:3000/api'') (str ''/x'') None
   = Inl (Exn (str ''SyntaxError'') (str ''Unexpected end of JSON input''))"
  by (simp add: apiClient_def respond_with_def)

text \<open>
  C3, amended: when the transport answers the request of \<open>apiClient\<close> with a response
  that is ok, the call settles as \<open>response.json()\<close> does: it resolves with the value
  that \<open>response.json()\<close> yields, and rejects with its error when \<open>response.json()\<close>
  rejects. For a response of the platform with a status from 200 to 299 that is the
  outcome of parsing the body: the call resolves with the body parsed as JSON when the
  body parses, and rejects with the error of the parser when it does not. In
  particular, a mocked transport answering HTTP 200 with the body \<open>{"id":"1"}\<close>,
  which parses to \<open>{id: "1"}\<close>, makes \<open>apiClient("/x")\<close> resolve to \<open>{id: "1"}\<close>.
\<close>

theorem apiClient_resolves_json:
  "(fetch (API_BASE_URL @ endpoint) (request_init options) = Inr response \<and> ok response \<longrightarrow>
      (json response = Inr v \<longrightarrow> apiClient fetch API_BASE_URL endpoint options = Inr v) \<and>
      (json response = Inl e \<longrightarrow> apiClient fetch API_BASE_URL endpoint options = Inl e)) \<and>
   (200 \<le> code \<and> code \<le> 299 \<longrightarrow>
      apiClient (respond_with (http_response JSON_parse code raw)) API_BASE_URL endpoint options
        = JSON_parse raw) \<and>
   (JSON_parse [0x7B, 0x22, 0x69, 0x64, 0x22, 0x3A, 0x22, 0x31, 0x22, 0x7D]
        = Inr (JObject [(str ''id'', JString (str ''1''))]) \<longrightarrow>
      apiClient
        (respond_with (http_response JSON_parse 200
           [0x7B, 0x22, 0x69, 0x64, 0x22, 0x3A, 0x22, 0x31, 0x22, 0x7D]))
        API_BASE_URL (str ''/x'') None
        = Inr (JObject [(str ''id'', JString (str ''1''))]))"
proof (intro conjI impI)
  assume "fetch (API_BASE_URL @ endpoint) (request_init options) = Inr response \<and> ok response"
    and "json response = Inr v"
  then show "apiClient fetch API_BASE_URL endpoint options = Inr v"
    by (simp add: apiClient_def)
next
  assume "fetch (API_BASE_URL @ endpoint) (request_init options) = Inr response \<and> ok response"
    and "json response = Inl e"
  then show "apiClient fetch API_BASE_URL endpoint options = Inl e"
    by (simp add: apiClient_def)
next
  assume "200 \<le> code \<and> code \<le> 299"
  then show "apiClient (respond_with (http_response JSON_parse code raw)) API_BASE_URL endpoint options
      = JSON_parse raw"
    by (simp add: apiClient_def respond_with_def http_response_def)
next
  assume "JSON_parse [0x7B, 0x22, 0x69, 0x64, 0x22, 0x3A, 0x22, 0x31, 0x22, 0x7D]
      = Inr (JObject [(str ''id'', JString (str ''1''))])"
  then show "apiClient
      (respond_with (http_response JSON_parse 200
         [0x7B, 0x22, 0x69, 0x64, 0x22, 0x3A, 0x22, 0x31, 0x22, 0x7D]))
      API_BASE_URL (str ''/x'') None
      = Inr (JObject [(str ''id'', JString (str ''1''))])"
    by (simp add: apiClient_def respond_with_def http_response_def)
qed

theorem apiClient_resolves_json_witness:
  "apiClient
     (respond_with (http_response
        (\<lambda>raw. if raw = [0x7B, 0x22, 0x69, 0x64, 0x22, 0x3A, 0x22, 0x31, 0x22, 0x7D]
           then Inr (JObject [(str ''id'', JString (str ''1''))])
           else Inl (Exn (str ''SyntaxError'') raw))
        200 [0x7B, 0x22, 0x69, 0x64, 0x22, 0x3A, 0x22, 0x31, 0x22, 0x7D]))
     (str ''http://localhost:3000/api'') (str ''/x'') None
   = Inr (JObject [(str ''id'', JString (str ''1''))]) \<and>
   apiClient
     (respond_with (http_response
        (\<lambda>raw. if raw = [0x7B, 0x22, 0x69, 0x64, 0x22, 0x3A, 0x22, 0x31, 0x22, 0x7D]
           then Inr (JObject [(str ''id'', JString (str ''1''))])
           else Inl (Exn (str ''SyntaxError'') raw))
        204 []))
     (str ''http://localhost:3000/api'') (str ''/x'') None
   = Inl (Exn (str ''SyntaxError'') [])"
proof -
  let ?base = "str ''http://localhost:3000/api''"
  let ?body = "[0x7B, 0x22, 0x69, 0x64, 0x22, 0x3A, 0x22, 0x31, 0x22, 0x7D] :: jsstring"
  let ?v = "JObject [(str ''id'', JString (str ''1''))]"
  let ?P = "\<lambda>raw. if raw = ?body then Inr ?v else Inl (Exn (str ''SyntaxError'') raw)"
  let ?r = "http_response ?P 200 ?body"
  let ?n = "http_response ?P 204 []"
  have p: "?P ?body = Inr ?v" by simp
  have r: "respond_with ?r (?base @ str ''/x'') (request_init None) = Inr ?r \<and> ok ?r"
    and rj: "json ?r = Inr ?v"
    by (simp_all add: respond_with_def http_response_def)
  have n: "respond_with ?n (?base @ str ''/x'') (request_init None) = Inr ?n \<and> ok ?n"
    and nj: "json ?n = Inl (Exn (str ''SyntaxError'') [])"
    by (simp_all add: respond_with_def http_response_def)
  have c: "(200::nat) \<le> 204 \<and> (204::nat) \<le> 299" by simp
  from r rj apiClient_resolves_json
    [of "respond_with ?r" ?base "str ''/x''" None ?r ?v]
  have 1: "apiClient (respond_with ?r) ?base (str ''/x'') None = Inr ?v"
    by blast
  from n nj apiClient_resolves_json
    [of "respond_with ?n" ?base "str ''/x''" None ?n _ "Exn (str ''SyntaxError'') []"]
  have 2: "apiClient (respond_with ?n) ?base (str ''/x'') None = Inl (Exn (str ''SyntaxError'') [])"
    by blast
  from c apiClient_resolves_json [of _ ?base "str ''/x''" None _ _ _ 204 ?P "[]"]
  have 3: "apiClient (respond_with ?n) ?base (str ''/x'') None = ?P []"
    by blast
  from p apiClient_resolves_json [of _ ?base _ _ _ _ _ _ ?P]
  have 4: "apiClient (respond_with ?r) ?base (str ''/x'') None = Inr ?v"
    by blast
  from 1 2 3 4 show ?thesis by simp
qed

section \<open>The claims about the auth context\<close>

lemma useContext_no_provider:
  "list_all (\<lambda>c. c = Other) ancestors \<Longrightarrow> useContext ancestors = None"
  by (induction ancestors) auto

lemma useContext_nearest_provider:
  "list_all (\<lambda>c. c = Other) inner \<Longrightarrow>
   useContext (inner @ AuthProvider s # outer) = Some (AuthProvider_value s)"
  by (induction inner) auto

text \<open>
  C4. A consumer with no \<open>AuthProvider\<close> among its ancestors gets \<open>null\<close> from the
  context lookup, and \<open>useAuth\<close> raises instead of returning a value. A consumer
  whose nearest provider is an \<open>AuthProvider\<close> in state \<open>s\<close> gets the value of that
  provider from \<open>useAuth\<close>, with no error.
\<close>

theorem useAuth_provider_scope:
  "(list_all (\<lambda>c. c = Other) ancestors \<longrightarrow>
      useContext ancestors = None \<and>
      useAuth ancestors =
        Inl (Exn (str ''Error'') (str ''useAuth must be used within an AuthProvider''))) \<and>
   (list_all (\<lambda>c. c = Other) inner \<longrightarrow>
      useAuth (inner @ AuthProvider s # outer) = Inr (AuthProvider_value s))"
  by (simp add: useAuth_def useContext_no_provider useContext_nearest_provider)

theorem useAuth_provider_scope_witness:
  "useAuth [Other, Other] =
     Inl (Exn (str ''Error'') (str ''useAuth must be used within an AuthProvider'')) \<and>
   useAuth ([Other] @ AuthProvider Anonymous # [Other]) = Inr (AuthProvider_value Anonymous)"
proof -
  have a: "list_all (\<lambda>c. c = Other) [Other, Other]" by simp
  have b: "list_all (\<lambda>c. c = Other) [Other]" by simp
  from a b useAuth_provider_scope [of "[Other, Other]" "[Other]" Anonymous "[Other]"]
  show ?thesis by blast
qed

text \<open>
  C5. Calling the \<open>logout\<close> of the provided value leaves the cell Anonymous whatever
  it held, so the provider then hands out \<open>user = null\<close>; and
  \<open>login({id:"1",email:"a@b.com",name:"A"})\<close> followed by \<open>logout()\<close>, from the
  initial state, leaves the user of the context equal to \<open>null\<close>.
\<close>

theorem logout_Anonymous:
  "logout (AuthProvider_value s) s = Anonymous \<and>
   user (AuthProvider_value (logout (AuthProvider_value s) s)) = None \<and>
   (let u = \<lparr>id' = str ''1'', email = str ''a@b.com'', name = str ''A''\<rparr>;
        s1 = login (AuthProvider_value initial_state) u initial_state;
        s2 = logout (AuthProvider_value s1) s1
    in s1 = Authenticated u \<and> user (AuthProvider_value s2) = None)"
  by (simp add: AuthProvider_value_def setUser_def Let_def)

text \<open>
  C6. Calling the \<open>login\<close> of the provided value with a user \<open>u\<close> leaves the cell
  Authenticated with \<open>u\<close> whatever it held, and the provider then hands out that
  user; calling \<open>login\<close> with \<open>u\<close> once more leaves the same state.
\<close>

theorem login_Authenticated_idempotent:
  "login (AuthProvider_value s) u s = Authenticated u \<and>
   user (AuthProvider_value (login (AuthProvider_value s) u s)) = Some u \<and>
   (let s1 = login (AuthProvider_value s) u s
    in login (AuthProvider_value s1) u s1 = s1)"
  by (simp add: AuthProvider_value_def setUser_def Let_def)

end
